theory Spec2Isabelle
  imports Main "HOL-Library.Multiset" "HOL-Library.Product_Lexorder"
begin

section \<open>Data model (types.ts)\<close>

text \<open>
  The interfaces \<^verbatim>\<open>Task\<close> and \<^verbatim>\<open>TaskFormData\<close>. JavaScript numbers that hold
  identifiers, priorities and counts are integers here; a field of type
  \<^verbatim>\<open>string | null\<close> is a \<open>string option\<close> with \<open>None\<close> for \<^verbatim>\<open>null\<close>. Record fields
  carry a suffix because field names are global in a theory (\<open>_t\<close> for Task,
  \<open>_f\<close> for TaskFormData).
\<close>

record task =
  id_t :: int
  title_t :: string
  done_t :: bool
  priority_t :: int
  due_date_t :: "string option"
  created_at_t :: string
  updated_at_t :: string
  notes_t :: "string option"
  tags_t :: "string list"

datatype TaskFilter = F_all | F_open | F_today | F_overdue

record task_form_data =
  title_f :: string
  priority_f :: int
  due_date_f :: string
  notes_f :: string
  tags_f :: string

section \<open>The JavaScript built-ins the code calls\<close>

subsection \<open>Date\<close>

text \<open>
  A \<^verbatim>\<open>Date\<close> is its time value: milliseconds since the epoch in UTC, or NaN for an
  invalid date (\<open>None\<close>). The local time zone is a fixed offset \<open>tz\<close> in milliseconds
  (local time = UTC + \<open>tz\<close>); daylight-saving changes are not modelled.
\<close>

definition msPerDay :: int where
  "msPerDay = 86400000"

definition digit_val :: "char \<Rightarrow> int option" where
  "digit_val c =
     (let n = (of_char c :: nat) in if 48 \<le> n \<and> n \<le> 57 then Some (int n - 48) else None)"

fun digits_val :: "int \<Rightarrow> string \<Rightarrow> int option" where
  "digits_val acc [] = Some acc"
| "digits_val acc (c # cs) =
     (case digit_val c of None \<Rightarrow> None | Some v \<Rightarrow> digits_val (10 * acc + v) cs)"

definition is_leap :: "int \<Rightarrow> bool" where
  "is_leap y \<longleftrightarrow> (y mod 4 = 0 \<and> y mod 100 \<noteq> 0) \<or> y mod 400 = 0"

definition days_in_month :: "int \<Rightarrow> int \<Rightarrow> int" where
  "days_in_month y m =
     (if m = 2 then (if is_leap y then 29 else 28)
      else if m = 4 \<or> m = 6 \<or> m = 9 \<or> m = 11 then 30 else 31)"

text \<open>Day number of a proleptic Gregorian date, day 0 being 1970-01-01.\<close>

definition days_from_civil :: "int \<Rightarrow> int \<Rightarrow> int \<Rightarrow> int" where
  "days_from_civil y m d =
     (let y' = (if m \<le> 2 then y - 1 else y);
          era = y' div 400;
          yoe = y' - era * 400;
          doy = (153 * (if m > 2 then m - 3 else m + 9) + 2) div 5 + d - 1;
          doe = yoe * 365 + yoe div 4 - yoe div 100 + doy
      in era * 146097 + doe - 719468)"

text \<open>
  \<^verbatim>\<open>new Date(s).getTime()\<close> for the format of \<^verbatim>\<open>Task.due_date\<close>, "YYYY-MM-DD": ECMAScript
  reads a date-only string as midnight UTC of that day. Any other string is an invalid
  date here (engines accept further formats; types.ts promises this one).
\<close>

definition Date_parse :: "string \<Rightarrow> int option" where
  "Date_parse s =
     (if length s = 10 \<and> s ! 4 = CHR ''-'' \<and> s ! 7 = CHR ''-'' then
        (case (digits_val 0 (take 4 s), digits_val 0 (take 2 (drop 5 s)), digits_val 0 (drop 8 s)) of
           (Some y, Some m, Some d) \<Rightarrow>
             if 1 \<le> m \<and> m \<le> 12 \<and> 1 \<le> d \<and> d \<le> days_in_month y m
             then Some (days_from_civil y m d * msPerDay) else None
         | _ \<Rightarrow> None)
      else None)"

text \<open>
  \<^verbatim>\<open>toDateString()\<close> prints the local calendar day, so two such strings are equal
  exactly when the local day numbers are; the model returns the local day number,
  and \<open>None\<close> for the text "Invalid Date".
\<close>

definition toDateString :: "int \<Rightarrow> int option \<Rightarrow> int option" where
  "toDateString tz tv = (case tv of None \<Rightarrow> None | Some t \<Rightarrow> Some ((t + tz) div msPerDay))"

text \<open>\<^verbatim>\<open>d.setHours(0,0,0,0)\<close>: the time value of local midnight of the day of \<open>t\<close>.\<close>

definition setHours0 :: "int \<Rightarrow> int \<Rightarrow> int" where
  "setHours0 tz t = ((t + tz) div msPerDay) * msPerDay - tz"

text \<open>\<^verbatim>\<open>date < now\<close> compares time values; a comparison with NaN is false.\<close>

definition date_lt :: "int option \<Rightarrow> int \<Rightarrow> bool" where
  "date_lt tv n = (case tv of None \<Rightarrow> False | Some t \<Rightarrow> t < n)"

text \<open>Truthiness of a \<^verbatim>\<open>string | null\<close>: \<^verbatim>\<open>null\<close> and the empty string are falsy.\<close>

definition truthy :: "string option \<Rightarrow> bool" where
  "truthy v = (case v of None \<Rightarrow> False | Some s \<Rightarrow> s \<noteq> [])"

definition new_Date :: "string option \<Rightarrow> int option" where
  "new_Date v = (case v of None \<Rightarrow> None | Some s \<Rightarrow> Date_parse s)"

text \<open>The clock the browser gives the code: the instant of \<^verbatim>\<open>new Date()\<close> and the zone.\<close>

record clock =
  now_ms :: int
  tz_ms :: int

subsection \<open>Array.prototype.sort\<close>

text \<open>
  The sort is stable (ECMAScript 2019) and calls the comparator \<open>cmp a b\<close>: negative
  puts \<open>a\<close> first, positive puts \<open>b\<close> first, zero keeps the order of the input.
  Stable insertion is the model; a NaN from the comparator counts as zero.
\<close>

fun insert_by :: "('a \<Rightarrow> 'a \<Rightarrow> int) \<Rightarrow> 'a \<Rightarrow> 'a list \<Rightarrow> 'a list" where
  "insert_by cmp x [] = [x]"
| "insert_by cmp x (y # ys) = (if cmp x y \<le> 0 then x # y # ys else y # insert_by cmp x ys)"

definition sort_by :: "('a \<Rightarrow> 'a \<Rightarrow> int) \<Rightarrow> 'a list \<Rightarrow> 'a list" where
  "sort_by cmp xs = foldr (insert_by cmp) xs []"

subsection \<open>String.prototype.split, trim and Array.prototype.join\<close>

text \<open>
  Characters are the code units below 256. \<^verbatim>\<open>trim\<close> removes white space and line
  terminators at both ends: tab, line feed, vertical tab, form feed, carriage return,
  space and no-break space in this range.
\<close>

definition is_ws :: "char \<Rightarrow> bool" where
  "is_ws c \<longleftrightarrow> (of_char c :: nat) \<in> {9, 10, 11, 12, 13, 32, 160}"

definition trim :: "string \<Rightarrow> string" where
  "trim s = rev (dropWhile is_ws (rev (dropWhile is_ws s)))"

text \<open>\<^verbatim>\<open>s.split(',')\<close>: never empty; the empty string gives one empty segment.\<close>

fun split_comma :: "string \<Rightarrow> string list" where
  "split_comma [] = [[]]"
| "split_comma (c # cs) =
     (if c = CHR '','' then [] # split_comma cs
      else (case split_comma cs of [] \<Rightarrow> [[c]] | w # ws \<Rightarrow> (c # w) # ws))"

text \<open>\<^verbatim>\<open>xs.join(', ')\<close>.\<close>

fun join_comma_space :: "string list \<Rightarrow> string" where
  "join_comma_space [] = []"
| "join_comma_space [x] = x"
| "join_comma_space (x # y # ys) = x @ '', '' @ join_comma_space (y # ys)"

section \<open>Filter and sort engine (App.tsx, filteredTasks)\<close>

text \<open>The three filter callbacks of the \<^verbatim>\<open>switch\<close>.\<close>

definition open_pred :: "task \<Rightarrow> bool" where
  "open_pred t \<longleftrightarrow> \<not> done_t t"

definition today_pred :: "clock \<Rightarrow> task \<Rightarrow> bool" where
  "today_pred c t \<longleftrightarrow>
     \<not> done_t t \<and> truthy (due_date_t t) \<and>
     toDateString (tz_ms c) (new_Date (due_date_t t)) = toDateString (tz_ms c) (Some (now_ms c))"

definition overdue_pred :: "clock \<Rightarrow> task \<Rightarrow> bool" where
  "overdue_pred c t \<longleftrightarrow>
     \<not> done_t t \<and> truthy (due_date_t t) \<and>
     date_lt (new_Date (due_date_t t)) (setHours0 (tz_ms c) (now_ms c))"

text \<open>
  The comparator of \<^verbatim>\<open>result.sort\<close>. A difference of time values that involves an
  invalid date is NaN, which the sort reads as zero.
\<close>

definition compareTasks :: "task \<Rightarrow> task \<Rightarrow> int" where
  "compareTasks a b =
     (if done_t a \<noteq> done_t b then (if done_t a then 1 else - 1)
      else if priority_t a \<noteq> priority_t b then priority_t a - priority_t b
      else if truthy (due_date_t a) \<and> truthy (due_date_t b) then
        (case (new_Date (due_date_t a), new_Date (due_date_t b)) of
           (Some x, Some y) \<Rightarrow> x - y
         | _ \<Rightarrow> 0)
      else if truthy (due_date_t a) \<and> \<not> truthy (due_date_t b) then - 1
      else if \<not> truthy (due_date_t a) \<and> truthy (due_date_t b) then 1
      else id_t b - id_t a)"

definition apply_filter :: "clock \<Rightarrow> TaskFilter \<Rightarrow> task list \<Rightarrow> task list" where
  "apply_filter c currentFilter tasks =
     (case currentFilter of
        F_open \<Rightarrow> filter open_pred tasks
      | F_today \<Rightarrow> filter (today_pred c) tasks
      | F_overdue \<Rightarrow> filter (overdue_pred c) tasks
      | F_all \<Rightarrow> tasks)"

definition filteredTasks :: "clock \<Rightarrow> TaskFilter \<Rightarrow> task list \<Rightarrow> task list" where
  "filteredTasks c currentFilter tasks = sort_by compareTasks (apply_filter c currentFilter tasks)"

subsection \<open>The order the comparator stands for\<close>

text \<open>
  A task has a usable due date when the date is missing, empty or parses. On such
  tasks the comparator is the lexicographic order of the key below: completion,
  priority, undated after dated, the date, and the negated identifier for undated
  tasks only.
\<close>

definition valid_due :: "task \<Rightarrow> bool" where
  "valid_due t \<longleftrightarrow>
     (case due_date_t t of None \<Rightarrow> True | Some s \<Rightarrow> s = [] \<or> Date_parse s \<noteq> None)"

definition sort_key_of :: "task \<Rightarrow> int \<times> int \<times> int \<times> int \<times> int" where
  "sort_key_of t =
     ((if done_t t then 1 else 0), priority_t t,
      (if truthy (due_date_t t) then
         (0, (case new_Date (due_date_t t) of None \<Rightarrow> 0 | Some ms \<Rightarrow> ms), 0)
       else (1, 0, - id_t t)))"

subsection \<open>Task card flags (TaskCard.tsx)\<close>

text \<open>The two flags of a task card, computed from the same clock.\<close>

definition isOverdue :: "clock \<Rightarrow> task \<Rightarrow> bool" where
  "isOverdue c task \<longleftrightarrow>
     \<not> done_t task \<and> truthy (due_date_t task) \<and>
     date_lt (new_Date (due_date_t task)) (setHours0 (tz_ms c) (now_ms c))"

definition isDueToday :: "clock \<Rightarrow> task \<Rightarrow> bool" where
  "isDueToday c task \<longleftrightarrow>
     \<not> done_t task \<and> truthy (due_date_t task) \<and>
     toDateString (tz_ms c) (new_Date (due_date_t task)) = toDateString (tz_ms c) (Some (now_ms c))"

subsection \<open>The filter modes as the specification words them\<close>

text \<open>
  These two predicates follow the specification, not the code: the due date is a
  calendar day; "today" compares that day with the current local calendar day,
  "overdue" compares local midnight of that day with the start of the current local
  day.
\<close>

definition due_day :: "task \<Rightarrow> int option" where
  "due_day t =
     (case new_Date (due_date_t t) of None \<Rightarrow> None | Some ms \<Rightarrow> Some (ms div msPerDay))"

definition local_day :: "clock \<Rightarrow> int" where
  "local_day c = (now_ms c + tz_ms c) div msPerDay"

definition spec_today :: "clock \<Rightarrow> task \<Rightarrow> bool" where
  "spec_today c t \<longleftrightarrow> \<not> done_t t \<and> due_day t = Some (local_day c)"

definition spec_overdue :: "clock \<Rightarrow> task \<Rightarrow> bool" where
  "spec_overdue c t \<longleftrightarrow>
     \<not> done_t t \<and>
     (case due_day t of None \<Rightarrow> False
      | Some d \<Rightarrow> d * msPerDay - tz_ms c < setHours0 (tz_ms c) (now_ms c))"

text \<open>All four modes as one predicate per mode.\<close>

definition spec_keeps :: "clock \<Rightarrow> TaskFilter \<Rightarrow> task \<Rightarrow> bool" where
  "spec_keeps c f t =
     (case f of F_all \<Rightarrow> True | F_open \<Rightarrow> \<not> done_t t
      | F_today \<Rightarrow> spec_today c t | F_overdue \<Rightarrow> spec_overdue c t)"

section \<open>Stats aggregator (App.tsx, stats)\<close>

text \<open>
  The repository holds two revisions of the dashboard. The first counts total, open
  and done; the second adds the tasks due today and the overdue ones, with \<^verbatim>\<open>now\<close>
  set to local midnight before both comparisons.
\<close>

record stats_v1 =
  total_v1 :: int
  open_v1 :: int
  done_v1 :: int

record stats_v2 =
  total_v2 :: int
  open_v2 :: int
  done_v2 :: int
  dueToday_v2 :: int
  overdue_v2 :: int

definition stats_basic :: "task list \<Rightarrow> stats_v1" where
  "stats_basic tasks =
     (let total = int (length tasks);
          opn = int (length (filter (\<lambda>t. \<not> done_t t) tasks))
      in \<lparr>total_v1 = total, open_v1 = opn, done_v1 = total - opn\<rparr>)"

definition stats :: "clock \<Rightarrow> task list \<Rightarrow> stats_v2" where
  "stats c tasks =
     (let total = int (length tasks);
          opn = int (length (filter (\<lambda>t. \<not> done_t t) tasks));
          now = setHours0 (tz_ms c) (now_ms c);
          dueToday = int (length (filter (\<lambda>t. \<not> done_t t \<and> truthy (due_date_t t) \<and>
                       toDateString (tz_ms c) (new_Date (due_date_t t)) =
                       toDateString (tz_ms c) (Some now)) tasks));
          overdue = int (length (filter (\<lambda>t. \<not> done_t t \<and> truthy (due_date_t t) \<and>
                       date_lt (new_Date (due_date_t t)) now) tasks))
      in \<lparr>total_v2 = total, open_v2 = opn, done_v2 = total - opn,
          dueToday_v2 = dueToday, overdue_v2 = overdue\<rparr>)"

section \<open>Form state (TaskForm.tsx) and API payloads (services/api.ts)\<close>

text \<open>\<^verbatim>\<open>v || ''\<close> on a \<^verbatim>\<open>string | null\<close>.\<close>

definition or_empty :: "string option \<Rightarrow> string" where
  "or_empty v = (case v of None \<Rightarrow> [] | Some s \<Rightarrow> s)"

text \<open>\<^verbatim>\<open>s || null\<close> on a string.\<close>

definition or_null :: "string \<Rightarrow> string option" where
  "or_null s = (if s = [] then None else Some s)"

text \<open>The form data the effect of TaskForm sets when it opens on a task.\<close>

definition initial_formData :: "task \<Rightarrow> task_form_data" where
  "initial_formData initialData =
     \<lparr>title_f = title_t initialData,
      priority_f = priority_t initialData,
      due_date_f = or_empty (due_date_t initialData),
      notes_f = or_empty (notes_t initialData),
      tags_f = join_comma_space (tags_t initialData)\<rparr>"

text \<open>\<^verbatim>\<open>tags.split(',').map(t => t.trim()).filter(t => t.length > 0)\<close>.\<close>

definition tagsArray :: "string \<Rightarrow> string list" where
  "tagsArray tags = filter (\<lambda>t. length t > 0) (map trim (split_comma tags))"

record create_payload =
  title_c :: string
  priority_c :: int
  due_date_c :: "string option"
  notes_c :: "string option"
  tags_c :: "string list"

definition createTask_payload :: "task_form_data \<Rightarrow> create_payload" where
  "createTask_payload data =
     \<lparr>title_c = title_f data,
      priority_c = priority_f data,
      due_date_c = or_null (due_date_f data),
      notes_c = or_null (notes_f data),
      tags_c = tagsArray (tags_f data)\<rparr>"

text \<open>
  The argument of \<^verbatim>\<open>updateTask\<close> is \<^verbatim>\<open>Partial<TaskFormData> | { done: boolean }\<close>: every
  key is present or not (\<open>None\<close> is a missing key). In the payload a key is missing,
  \<^verbatim>\<open>null\<close> or holds a value.
\<close>

record update_data =
  title_d :: "string option"
  priority_d :: "int option"
  due_date_d :: "string option"
  notes_d :: "string option"
  tags_d :: "string option"
  done_d :: "bool option"

datatype 'a field = Absent | Null | Value 'a

record update_payload =
  title_u :: "string field"
  priority_u :: "int field"
  due_date_u :: "string field"
  notes_u :: "string field"
  tags_u :: "string list field"
  done_u :: "bool field"

definition copy_key :: "'a option \<Rightarrow> 'a field" where
  "copy_key v = (case v of None \<Rightarrow> Absent | Some x \<Rightarrow> Value x)"

definition empty_to_null :: "string option \<Rightarrow> string field" where
  "empty_to_null v = (case v of None \<Rightarrow> Absent | Some s \<Rightarrow> if s = [] then Null else Value s)"

definition updateTask_payload :: "update_data \<Rightarrow> update_payload" where
  "updateTask_payload data =
     \<lparr>title_u = copy_key (title_d data),
      priority_u = copy_key (priority_d data),
      due_date_u = empty_to_null (due_date_d data),
      notes_u = empty_to_null (notes_d data),
      tags_u = (case tags_d data of None \<Rightarrow> Absent | Some s \<Rightarrow> Value (tagsArray s)),
      done_u = copy_key (done_d data)\<rparr>"

text \<open>The two arguments the dashboard passes to \<^verbatim>\<open>updateTask\<close>.\<close>

definition form_update :: "task_form_data \<Rightarrow> update_data" where
  "form_update data =
     \<lparr>title_d = Some (title_f data), priority_d = Some (priority_f data),
      due_date_d = Some (due_date_f data), notes_d = Some (notes_f data),
      tags_d = Some (tags_f data), done_d = None\<rparr>"

definition done_update :: "bool \<Rightarrow> update_data" where
  "done_update newStatus =
     \<lparr>title_d = None, priority_d = None, due_date_d = None, notes_d = None,
      tags_d = None, done_d = Some newStatus\<rparr>"

section \<open>Toggle and delete handlers (App.tsx)\<close>

text \<open>
  The state a handler touches: the task list, the messages shown with \<^verbatim>\<open>alert\<close> and
  the requests sent, both oldest first. The outcome of a request (\<open>True\<close> when the
  response is ok, \<open>False\<close> when \<^verbatim>\<open>fetch\<close> or the status check throws) and the answer of
  \<^verbatim>\<open>window.confirm\<close> are inputs.
\<close>

datatype request = PATCH_task int update_payload | DELETE_task int

record app_state =
  tasks_s :: "task list"
  alerts_s :: "string list"
  requests_s :: "request list"

definition set_done :: "int \<Rightarrow> bool \<Rightarrow> task list \<Rightarrow> task list" where
  "set_done i v prev = map (\<lambda>t. if id_t t = i then t\<lparr>done_t := v\<rparr> else t) prev"

text \<open>\<^verbatim>\<open>handleToggleDone\<close> up to its \<^verbatim>\<open>await\<close>: the optimistic update and the request.\<close>

definition toggle_begin :: "task \<Rightarrow> app_state \<Rightarrow> app_state" where
  "toggle_begin task st =
     (let newStatus = \<not> done_t task in
      st\<lparr>tasks_s := set_done (id_t task) newStatus (tasks_s st),
         requests_s := requests_s st @ [PATCH_task (id_t task) (updateTask_payload (done_update newStatus))]\<rparr>)"

text \<open>\<^verbatim>\<open>handleToggleDone\<close> after the request settles: the \<^verbatim>\<open>catch\<close> branch on failure.\<close>

definition toggle_settle :: "task \<Rightarrow> bool \<Rightarrow> app_state \<Rightarrow> app_state" where
  "toggle_settle task ok st =
     (let newStatus = \<not> done_t task in
      if ok then st
      else st\<lparr>tasks_s := set_done (id_t task) (\<not> newStatus) (tasks_s st),
              alerts_s := alerts_s st @ [''Status konnte nicht aktualisiert werden.'']\<rparr>)"

definition handleToggleDone :: "task \<Rightarrow> bool \<Rightarrow> app_state \<Rightarrow> app_state" where
  "handleToggleDone task ok st = toggle_settle task ok (toggle_begin task st)"

definition delete_failed_msg :: string where
  "delete_failed_msg = ''L'' @ [char_of (246 :: nat)] @ ''schen fehlgeschlagen.''"

definition handleDelete :: "task \<Rightarrow> bool \<Rightarrow> bool \<Rightarrow> app_state \<Rightarrow> app_state" where
  "handleDelete task confirmed ok st =
     (if \<not> confirmed then st
      else
        (let st1 = st\<lparr>requests_s := requests_s st @ [DELETE_task (id_t task)]\<rparr> in
         if ok then st1\<lparr>tasks_s := filter (\<lambda>t. id_t t \<noteq> id_t task) (tasks_s st1)\<rparr>
         else st1\<lparr>alerts_s := alerts_s st1 @ [delete_failed_msg]\<rparr>))"

section \<open>Sample inputs\<close>

text \<open>
  A task due on 2024-01-15 (day 19737 after the epoch) and two clocks on that local
  day: 12:00 in New York (UTC-5, the instant 2024-01-15T17:00Z) and 12:00 in Berlin
  (UTC+1, the instant 2024-01-15T11:00Z).
\<close>

definition sample_task :: task where
  "sample_task =
     \<lparr>id_t = 1, title_t = ''Report'', done_t = False, priority_t = 2,
      due_date_t = Some ''2024-01-15'', created_at_t = ''2024-01-10T09:00:00'',
      updated_at_t = ''2024-01-10T09:00:00'', notes_t = None, tags_t = [''a'', ''b'']\<rparr>"

definition clock_new_york :: clock where
  "clock_new_york = \<lparr>now_ms = 1705338000000, tz_ms = - 18000000\<rparr>"

definition clock_berlin :: clock where
  "clock_berlin = \<lparr>now_ms = 1705316400000, tz_ms = 3600000\<rparr>"

definition sample_form :: task_form_data where
  "sample_form = \<lparr>title_f = ''Report'', priority_f = 3, due_date_f = [], notes_f = [], tags_f = []\<rparr>"

definition sample_state :: app_state where
  "sample_state =
     \<lparr>tasks_s = [sample_task, sample_task\<lparr>id_t := 2, done_t := True\<rparr>],
      alerts_s = [], requests_s = []\<rparr>"

section \<open>Properties of the sort\<close>

lemma length_insert_by: "length (insert_by cmp x ys) = Suc (length ys)"
  by (induction ys) auto

lemma length_sort_by: "length (sort_by cmp xs) = length xs"
  by (induction xs) (auto simp: sort_by_def length_insert_by)

lemma set_insert_by: "set (insert_by cmp x ys) = insert x (set ys)"
  by (induction ys) auto

lemma set_sort_by: "set (sort_by cmp xs) = set xs"
  by (induction xs) (auto simp: sort_by_def set_insert_by)

lemma mset_insert_by: "mset (insert_by cmp x ys) = add_mset x (mset ys)"
  by (induction ys) auto

lemma mset_sort_by: "mset (sort_by cmp xs) = mset xs"
  by (induction xs) (auto simp: sort_by_def mset_insert_by)

lemma sort_by_Cons: "sort_by cmp (x # xs) = insert_by cmp x (sort_by cmp xs)"
  by (simp add: sort_by_def)

text \<open>
  A list is in comparator order when no neighbouring pair is out of order. Insertion
  keeps that, provided the comparator never calls both \<open>a\<close> after \<open>b\<close> and \<open>b\<close>
  after \<open>a\<close>; the task comparator has this property also on invalid dates.
\<close>

lemma compareTasks_asym: "compareTasks a b > 0 \<Longrightarrow> compareTasks b a \<le> 0"
  by (auto simp: compareTasks_def split: if_splits option.splits)

lemma successively_insert_by:
  assumes asym: "\<And>a b. cmp a b > 0 \<Longrightarrow> cmp b a \<le> 0"
  shows "successively (\<lambda>a b. cmp a b \<le> 0) ys \<Longrightarrow>
         successively (\<lambda>a b. cmp a b \<le> 0) (insert_by cmp x ys)"
proof (induction ys)
  case Nil
  then show ?case by simp
next
  case (Cons y ys)
  show ?case
  proof (cases "cmp x y \<le> 0")
    case True
    with Cons.prems show ?thesis by simp
  next
    case False
    then have yx: "cmp y x \<le> 0" using asym[of x y] by simp
    from Cons.prems have tl: "successively (\<lambda>a b. cmp a b \<le> 0) ys"
      by (cases ys) auto
    have ih: "successively (\<lambda>a b. cmp a b \<le> 0) (insert_by cmp x ys)"
      using Cons.IH tl by simp
    show ?thesis
    proof (cases ys)
      case Nil
      with False yx show ?thesis by simp
    next
      case (Cons z zs)
      with False yx ih Cons.prems show ?thesis by (auto split: if_splits)
    qed
  qed
qed

lemma successively_sort_by:
  assumes asym: "\<And>a b. cmp a b > 0 \<Longrightarrow> cmp b a \<le> 0"
  shows "successively (\<lambda>a b. cmp a b \<le> 0) (sort_by cmp xs)"
  by (induction xs)
     (auto simp: sort_by_Cons sort_by_def[of cmp "[]"] intro: successively_insert_by[OF asym])

lemma sort_by_ordered_id:
  "successively (\<lambda>a b. cmp a b \<le> 0) xs \<Longrightarrow> sort_by cmp xs = xs"
proof (induction xs)
  case Nil
  then show ?case by (simp add: sort_by_def)
next
  case (Cons x xs)
  then show ?case by (cases xs) (auto simp: sort_by_Cons)
qed

lemma sort_tasks_idem:
  "sort_by compareTasks (sort_by compareTasks ts) = sort_by compareTasks ts"
  by (rule sort_by_ordered_id) (rule successively_sort_by, rule compareTasks_asym)

text \<open>
  On tasks with usable due dates the model of the sort is the stable sort by
  \<open>sort_key_of\<close>: its output is ordered by the key and keeps the input order of tasks
  with equal keys, which is the one result a stable sort can return.
\<close>

lemma compareTasks_key:
  "valid_due a \<Longrightarrow> valid_due b \<Longrightarrow> compareTasks a b \<le> 0 \<longleftrightarrow> sort_key_of a \<le> sort_key_of b"
  by (auto simp: compareTasks_def sort_key_of_def valid_due_def truthy_def new_Date_def
      less_eq_prod_def less_prod_def split: option.splits if_splits)

lemma insert_by_insort_key:
  "\<forall>y \<in> set ys. (cmp x y \<le> 0 \<longleftrightarrow> k x \<le> k y) \<Longrightarrow> insert_by cmp x ys = insort_key k x ys"
  by (induction ys) auto

lemma sort_by_sort_key:
  "\<forall>x \<in> set xs. \<forall>y \<in> set xs. (cmp x y \<le> 0 \<longleftrightarrow> k x \<le> k y) \<Longrightarrow>
   sort_by cmp xs = sort_key k xs"
proof (induction xs)
  case Nil
  then show ?case by (simp add: sort_by_def)
next
  case (Cons x xs)
  then have ih: "sort_by cmp xs = sort_key k xs" by simp
  have "insert_by cmp x (sort_key k xs) = insort_key k x (sort_key k xs)"
    using Cons.prems by (intro insert_by_insort_key) simp
  then show ?case by (simp add: sort_by_Cons ih)
qed

lemma sort_tasks_is_key_sort:
  "\<forall>t \<in> set ts. valid_due t \<Longrightarrow> sort_by compareTasks ts = sort_key sort_key_of ts"
  by (rule sort_by_sort_key) (simp add: compareTasks_key)

lemma sort_tasks_sorted:
  "\<forall>t \<in> set ts. valid_due t \<Longrightarrow> sorted (map sort_key_of (sort_by compareTasks ts))"
  by (simp add: sort_tasks_is_key_sort)

lemma sort_tasks_stable:
  "\<forall>t \<in> set ts. valid_due t \<Longrightarrow>
   filter (\<lambda>t. sort_key_of t = k) (sort_by compareTasks ts) = filter (\<lambda>t. sort_key_of t = k) ts"
  by (simp add: sort_tasks_is_key_sort sort_key_stable)

lemma apply_filter_fixed:
  "set ys \<subseteq> set (apply_filter c f ts) \<Longrightarrow> apply_filter c f ys = ys"
  by (cases f) (auto simp: apply_filter_def filter_id_conv)

text \<open>
  Claim C9. For every task list, filter mode and fixed clock, filtering and sorting
  the output of \<open>filteredTasks\<close> again gives the same sequence, and sorting a sorted
  list again gives the same order.
\<close>

theorem filteredTasks_idempotent:
  "filteredTasks c f (filteredTasks c f ts) = filteredTasks c f ts \<and>
   sort_by compareTasks (sort_by compareTasks ts) = sort_by compareTasks ts"
proof -
  have "apply_filter c f (filteredTasks c f ts) = filteredTasks c f ts"
    by (rule apply_filter_fixed[where ts = ts]) (simp add: filteredTasks_def set_sort_by)
  then show ?thesis
    by (simp add: filteredTasks_def sort_tasks_idem)
qed

section \<open>The comparator\<close>

lemma sample_due: "new_Date (due_date_t sample_task) = Some (19737 * msPerDay)"
  unfolding sample_task_def new_Date_def by code_simp

text \<open>
  What the comparator does decide: open before done, then the lower priority number,
  then a dated task before an undated one and the earlier of two valid dates, and the
  higher identifier among undated tasks.
\<close>

lemma compareTasks_done:
  "done_t a \<noteq> done_t b \<Longrightarrow> compareTasks a b < 0 \<longleftrightarrow> \<not> done_t a"
  by (simp add: compareTasks_def)

lemma compareTasks_priority:
  "done_t a = done_t b \<Longrightarrow> priority_t a \<noteq> priority_t b \<Longrightarrow>
   compareTasks a b < 0 \<longleftrightarrow> priority_t a < priority_t b"
  by (simp add: compareTasks_def)

lemma compareTasks_dated_first:
  "done_t a = done_t b \<Longrightarrow> priority_t a = priority_t b \<Longrightarrow>
   truthy (due_date_t a) \<Longrightarrow> \<not> truthy (due_date_t b) \<Longrightarrow>
   compareTasks a b < 0 \<and> compareTasks b a > 0"
  by (simp add: compareTasks_def)

lemma compareTasks_dates:
  "done_t a = done_t b \<Longrightarrow> priority_t a = priority_t b \<Longrightarrow>
   truthy (due_date_t a) \<Longrightarrow> truthy (due_date_t b) \<Longrightarrow>
   new_Date (due_date_t a) = Some x \<Longrightarrow> new_Date (due_date_t b) = Some y \<Longrightarrow>
   compareTasks a b = x - y"
  by (simp add: compareTasks_def)

lemma compareTasks_undated:
  "done_t a = done_t b \<Longrightarrow> priority_t a = priority_t b \<Longrightarrow>
   \<not> truthy (due_date_t a) \<Longrightarrow> \<not> truthy (due_date_t b) \<Longrightarrow>
   compareTasks a b = id_t b - id_t a"
  by (simp add: compareTasks_def)

text \<open>
  The example of the specification: A (id 1, priority 2, open), B (id 2, priority 1,
  open) and C (id 3, priority 2, done) come out as B, A, C.
\<close>

lemma spec_example_order:
  "map id_t (filteredTasks c F_all
     [sample_task\<lparr>due_date_t := None\<rparr>,
      sample_task\<lparr>id_t := 2, priority_t := 1, due_date_t := None\<rparr>,
      sample_task\<lparr>id_t := 3, done_t := True, due_date_t := None\<rparr>]) = [2, 1, 3]"
  by (simp add: filteredTasks_def apply_filter_def sort_by_def compareTasks_def sample_task_def
      truthy_def)

text \<open>
  Claim C1 (the code departs from it). Two open tasks of priority 2, both due on
  2024-01-15, with identifiers 1 and 2: the comparator returns 0 for the pair in both
  directions, because the branch for two dated tasks returns the difference of the
  dates and never reaches the identifier comparison. The sort therefore keeps the
  order of the input, here the lower identifier first, where rule (4) of the claim
  puts the higher identifier first.
\<close>

theorem equal_due_dates_keep_input_order:
  "id_t sample_task < id_t (sample_task\<lparr>id_t := 2\<rparr>) \<and>
   compareTasks sample_task (sample_task\<lparr>id_t := 2\<rparr>) = 0 \<and>
   compareTasks (sample_task\<lparr>id_t := 2\<rparr>) sample_task = 0 \<and>
   filteredTasks c F_all [sample_task, sample_task\<lparr>id_t := 2\<rparr>] =
     [sample_task, sample_task\<lparr>id_t := 2\<rparr>]"
proof -
  have z: "compareTasks sample_task (sample_task\<lparr>id_t := 2\<rparr>) = 0"
    by (simp add: compareTasks_def sample_due) (simp add: sample_task_def truthy_def)
  have z': "compareTasks (sample_task\<lparr>id_t := 2\<rparr>) sample_task = 0"
    by (simp add: compareTasks_def sample_due) (simp add: sample_task_def truthy_def)
  have i: "id_t sample_task < id_t (sample_task\<lparr>id_t := 2\<rparr>)"
    by (simp add: sample_task_def)
  show ?thesis
    using z z' i by (simp add: filteredTasks_def apply_filter_def sort_by_def)
qed

section \<open>The filter modes\<close>

lemma Date_parse_midnight: "Date_parse s = Some ms \<Longrightarrow> \<exists>d. ms = d * msPerDay"
  by (auto simp: Date_parse_def split: if_splits option.splits)

lemma Date_parse_nonempty: "Date_parse s = Some ms \<Longrightarrow> s \<noteq> []"
  by (auto simp: Date_parse_def split: if_splits)

text \<open>No task is both due today and overdue, whatever the clock.\<close>

lemma today_overdue_exclusive: "\<not> (today_pred c t \<and> overdue_pred c t)"
proof
  assume a: "today_pred c t \<and> overdue_pred c t"
  then obtain ms where ms: "new_Date (due_date_t t) = Some ms"
    by (auto simp: overdue_pred_def date_lt_def split: option.splits)
  from a ms have 1: "(ms + tz_ms c) div msPerDay = (now_ms c + tz_ms c) div msPerDay"
    by (simp add: today_pred_def toDateString_def)
  from a ms have 2: "ms < (now_ms c + tz_ms c) div msPerDay * msPerDay - tz_ms c"
    by (simp add: overdue_pred_def date_lt_def setHours0_def)
  from 1 2 show False
    unfolding msPerDay_def by linarith
qed

text \<open>
  In a zone at or east of UTC (offset from 0 to under 24 hours) the two date filters
  are the predicates of the specification.
\<close>

lemma east_of_utc_today:
  assumes "0 \<le> tz_ms c" and "tz_ms c < msPerDay"
  shows "today_pred c t \<longleftrightarrow> spec_today c t"
proof (cases "new_Date (due_date_t t)")
  case None
  then show ?thesis
    by (simp add: today_pred_def spec_today_def due_day_def toDateString_def)
next
  case (Some ms)
  then obtain s where s: "due_date_t t = Some s" "Date_parse s = Some ms"
    by (auto simp: new_Date_def split: option.splits)
  then have tr: "truthy (due_date_t t)"
    by (simp add: truthy_def Date_parse_nonempty)
  from s obtain d where d: "ms = d * msPerDay"
    using Date_parse_midnight by blast
  have "(d * msPerDay + tz_ms c) div msPerDay = d"
    using assms unfolding msPerDay_def by simp
  then show ?thesis
    using Some tr d
    by (auto simp: today_pred_def spec_today_def due_day_def toDateString_def local_day_def
        msPerDay_def)
qed

lemma east_of_utc_overdue:
  assumes "0 \<le> tz_ms c" and "tz_ms c < msPerDay"
  shows "overdue_pred c t \<longleftrightarrow> spec_overdue c t"
proof (cases "new_Date (due_date_t t)")
  case None
  then show ?thesis
    by (simp add: overdue_pred_def spec_overdue_def due_day_def date_lt_def)
next
  case (Some ms)
  then obtain s where s: "due_date_t t = Some s" "Date_parse s = Some ms"
    by (auto simp: new_Date_def split: option.splits)
  then have tr: "truthy (due_date_t t)"
    by (simp add: truthy_def Date_parse_nonempty)
  from s obtain d where d: "ms = d * msPerDay"
    using Date_parse_midnight by blast
  define n where "n = (now_ms c + tz_ms c) div msPerDay"
  have "d * msPerDay < n * msPerDay - tz_ms c \<longleftrightarrow>
        d * msPerDay - tz_ms c < n * msPerDay - tz_ms c"
    using assms unfolding msPerDay_def by auto
  then show ?thesis
    using Some tr d
    by (simp add: overdue_pred_def spec_overdue_def due_day_def date_lt_def setHours0_def
        n_def msPerDay_def)
qed

text \<open>
  In a zone west of UTC (offset above -24 hours and below 0) every open task due on
  the current local day fails the "today" filter and passes the "overdue" filter.
\<close>

lemma west_of_utc_due_today:
  assumes "tz_ms c < 0" and "- msPerDay < tz_ms c"
    and "\<not> done_t t" and "due_day t = Some (local_day c)"
  shows "\<not> today_pred c t \<and> overdue_pred c t"
proof -
  from assms(4) obtain ms where ms: "new_Date (due_date_t t) = Some ms"
    by (auto simp: due_day_def split: option.splits)
  then obtain s where s: "due_date_t t = Some s" "Date_parse s = Some ms"
    by (auto simp: new_Date_def split: option.splits)
  then have tr: "truthy (due_date_t t)"
    by (simp add: truthy_def Date_parse_nonempty)
  from s obtain d where d: "ms = d * msPerDay"
    using Date_parse_midnight by blast
  from assms(4) ms d have n: "local_day c = d"
    by (simp add: due_day_def msPerDay_def)
  have 1: "(d * msPerDay + tz_ms c) div msPerDay = d - 1"
    unfolding msPerDay_def
    by (rule int_div_pos_eq[where r = "tz_ms c + 86400000"])
       (use assms(1,2) in \<open>auto simp: msPerDay_def\<close>)
  have 2: "d * msPerDay < d * msPerDay - tz_ms c"
    using assms(1) by simp
  show ?thesis
    using ms tr d n 1 2 assms(3)
    by (simp add: today_pred_def overdue_pred_def toDateString_def date_lt_def setHours0_def
        local_day_def)
qed

text \<open>
  The modes "all" and "open" keep exactly the tasks the specification names, in every
  zone; so do "today" and "overdue" at or east of UTC.
\<close>

lemma filteredTasks_all_open:
  "mset (filteredTasks c F_all ts) = mset ts \<and>
   mset (filteredTasks c F_open ts) = mset (filter (\<lambda>t. \<not> done_t t) ts)"
  by (simp add: filteredTasks_def apply_filter_def mset_sort_by open_pred_def)

lemma east_of_utc_filter:
  assumes "0 \<le> tz_ms c" and "tz_ms c < msPerDay"
  shows "mset (filteredTasks c f ts) = mset (filter (spec_keeps c f) ts)"
proof -
  have t: "today_pred c = spec_today c"
    using east_of_utc_today[OF assms] by (simp add: fun_eq_iff)
  have ov: "overdue_pred c = spec_overdue c"
    using east_of_utc_overdue[OF assms] by (simp add: fun_eq_iff)
  have k: "spec_keeps c F_open = open_pred" "spec_keeps c F_today = spec_today c"
    "spec_keeps c F_overdue = spec_overdue c" "spec_keeps c F_all = (\<lambda>t. True)"
    by (simp_all add: fun_eq_iff spec_keeps_def open_pred_def)
  have "apply_filter c f ts = filter (spec_keeps c f) ts"
    by (cases f) (simp_all add: apply_filter_def k t ov)
  then show ?thesis
    by (simp add: filteredTasks_def mset_sort_by)
qed

text \<open>
  Claim C2 (the code departs from it). At noon of 2024-01-15 in New York the open task
  due on 2024-01-15 satisfies the "today" predicate of the claim and not its "overdue"
  predicate, yet the "today" filter returns nothing and the "overdue" filter returns
  the task: the due date is read as midnight UTC, which is 19:00 of the day before in
  local time, while the current day is taken in local time.
\<close>

theorem date_filters_west_of_utc:
  "spec_today clock_new_york sample_task \<and>
   filteredTasks clock_new_york F_today [sample_task] = [] \<and>
   \<not> spec_overdue clock_new_york sample_task \<and>
   filteredTasks clock_new_york F_overdue [sample_task] = [sample_task]"
proof -
  have d: "\<not> done_t sample_task" by (simp add: sample_task_def)
  have tr: "truthy (due_date_t sample_task)" by (simp add: sample_task_def truthy_def)
  have 1: "spec_today clock_new_york sample_task"
    using d by (simp add: spec_today_def due_day_def sample_due local_day_def)
               (simp add: clock_new_york_def msPerDay_def)
  have 2: "\<not> spec_overdue clock_new_york sample_task"
    by (simp add: spec_overdue_def due_day_def sample_due setHours0_def)
       (simp add: clock_new_york_def msPerDay_def)
  have 3: "\<not> today_pred clock_new_york sample_task"
    by (simp add: today_pred_def sample_due toDateString_def)
       (simp add: clock_new_york_def msPerDay_def)
  have 4: "overdue_pred clock_new_york sample_task"
    using d tr by (simp add: overdue_pred_def sample_due date_lt_def setHours0_def)
                  (simp add: clock_new_york_def msPerDay_def)
  show ?thesis
    using 1 2 3 4 by (simp add: filteredTasks_def apply_filter_def sort_by_def)
qed

text \<open>
  Claim C4 (the code departs from it). The same task at the same clock: its due date
  is the current local day and it is open, but neither the filter nor the task card
  classifies it as due today, and both classify it as overdue.
\<close>

theorem due_today_classified_overdue_west_of_utc:
  "local_day clock_new_york = 19737 \<and> due_day sample_task = Some 19737 \<and>
   \<not> done_t sample_task \<and>
   \<not> today_pred clock_new_york sample_task \<and> overdue_pred clock_new_york sample_task \<and>
   \<not> isDueToday clock_new_york sample_task \<and> isOverdue clock_new_york sample_task"
  by (simp add: local_day_def due_day_def sample_due today_pred_def overdue_pred_def
      isDueToday_def isOverdue_def toDateString_def date_lt_def setHours0_def truthy_def)
     (simp add: clock_new_york_def sample_task_def msPerDay_def)

text \<open>In Berlin at noon of the same day the task is due today and not overdue.\<close>

lemma due_today_berlin:
  "local_day clock_berlin = 19737 \<and>
   today_pred clock_berlin sample_task \<and> \<not> overdue_pred clock_berlin sample_task"
  by (simp add: local_day_def sample_due today_pred_def overdue_pred_def
      toDateString_def date_lt_def setHours0_def truthy_def)
     (simp add: clock_berlin_def sample_task_def msPerDay_def)

section \<open>Stats aggregator\<close>

lemma toDateString_setHours0:
  "toDateString tz (Some (setHours0 tz n)) = toDateString tz (Some n)"
  by (simp add: toDateString_def setHours0_def msPerDay_def)

lemma length_filter_done:
  "int (length ts) - int (length (filter (\<lambda>t. \<not> done_t t) ts)) = int (length (filter done_t ts))"
  using sum_length_filter_compl[of done_t ts] by simp

text \<open>
  Claim C3. The aggregator is a function of the task list (and the clock): it
  returns the length of the list, the number of open tasks, the number of done tasks as
  total minus open, and the numbers of tasks due today and overdue, which are the
  sizes of the "today" and "overdue" views of the filter engine at the same clock. Its
  first revision returns the first three of these counts.
\<close>

theorem stats_counts:
  "stats c ts =
     \<lparr>total_v2 = int (length ts),
      open_v2 = int (length (filteredTasks c F_open ts)),
      done_v2 = int (length (filter done_t ts)),
      dueToday_v2 = int (length (filteredTasks c F_today ts)),
      overdue_v2 = int (length (filteredTasks c F_overdue ts))\<rparr> \<and>
   done_v2 (stats c ts) = total_v2 (stats c ts) - open_v2 (stats c ts) \<and>
   stats_basic ts =
     \<lparr>total_v1 = total_v2 (stats c ts), open_v1 = open_v2 (stats c ts),
      done_v1 = done_v2 (stats c ts)\<rparr>"
proof -
  have today: "(\<lambda>t. \<not> done_t t \<and> truthy (due_date_t t) \<and>
        toDateString (tz_ms c) (new_Date (due_date_t t)) =
        toDateString (tz_ms c) (Some (setHours0 (tz_ms c) (now_ms c)))) = today_pred c"
    by (simp add: fun_eq_iff today_pred_def toDateString_setHours0)
  have overdue: "(\<lambda>t. \<not> done_t t \<and> truthy (due_date_t t) \<and>
        date_lt (new_Date (due_date_t t)) (setHours0 (tz_ms c) (now_ms c))) = overdue_pred c"
    by (simp add: fun_eq_iff overdue_pred_def)
  have opn: "(\<lambda>t. \<not> done_t t) = open_pred"
    by (simp add: fun_eq_iff open_pred_def)
  have s: "stats c ts =
     \<lparr>total_v2 = int (length ts),
      open_v2 = int (length (filter open_pred ts)),
      done_v2 = int (length ts) - int (length (filter open_pred ts)),
      dueToday_v2 = int (length (filter (today_pred c) ts)),
      overdue_v2 = int (length (filter (overdue_pred c) ts))\<rparr>"
    unfolding stats_def Let_def today overdue opn by simp
  have d: "int (length ts) - int (length (filter open_pred ts)) = int (length (filter done_t ts))"
    using length_filter_done[of ts] by (simp add: opn)
  have b: "stats_basic ts =
     \<lparr>total_v1 = int (length ts), open_v1 = int (length (filter open_pred ts)),
      done_v1 = int (length ts) - int (length (filter open_pred ts))\<rparr>"
    unfolding stats_basic_def Let_def opn by simp
  show ?thesis
    unfolding s b d by (simp add: filteredTasks_def apply_filter_def length_sort_by d)
qed

section \<open>Toggle and delete\<close>

lemma set_done_same:
  "\<forall>t \<in> set ts. id_t t = i \<longrightarrow> done_t t = v \<Longrightarrow> set_done i v ts = ts"
  by (induction ts) (auto simp: set_done_def)

lemma set_done_twice: "set_done i v (set_done i w ts) = set_done i v ts"
  by (induction ts) (auto simp: set_done_def)

lemma distinct_ids_done:
  assumes "x \<in> set ts" and "distinct (map id_t ts)"
  shows "\<forall>t \<in> set ts. id_t t = id_t x \<longrightarrow> done_t t = done_t x"
  using assms by (auto simp: distinct_map inj_on_def)

text \<open>
  Claim C5. Let X be a task of the local list, whose identifiers are unique. Up to
  the await, \<open>handleToggleDone\<close> has replaced X in the list by X with the new done
  value. If the request fails, the list is again the list before the toggle and the
  failure message has been shown; if it succeeds, the list keeps the new value and no
  message is shown.
\<close>

theorem toggle_optimistic_rollback:
  assumes "x \<in> set (tasks_s st)" and "distinct (map id_t (tasks_s st))"
  shows "x\<lparr>done_t := \<not> done_t x\<rparr> \<in> set (tasks_s (toggle_begin x st)) \<and>
         x \<notin> set (tasks_s (toggle_begin x st)) \<and>
         tasks_s (handleToggleDone x True st) = tasks_s (toggle_begin x st) \<and>
         alerts_s (handleToggleDone x True st) = alerts_s st \<and>
         tasks_s (handleToggleDone x False st) = tasks_s st \<and>
         alerts_s (handleToggleDone x False st) =
           alerts_s st @ [''Status konnte nicht aktualisiert werden.'']"
proof -
  have same: "\<forall>t \<in> set (tasks_s st). id_t t = id_t x \<longrightarrow> done_t t = done_t x"
    using assms by (rule distinct_ids_done)
  have inn: "x\<lparr>done_t := \<not> done_t x\<rparr> \<in> set (tasks_s (toggle_begin x st))"
    using assms(1) by (force simp: toggle_begin_def set_done_def Let_def)
  have flip: "x \<noteq> y\<lparr>done_t := \<not> done_t x\<rparr>" for y
  proof
    assume "x = y\<lparr>done_t := \<not> done_t x\<rparr>"
    then have "done_t x = done_t (y\<lparr>done_t := \<not> done_t x\<rparr>)" by (rule arg_cong)
    then show False by simp
  qed
  have out: "x \<notin> set (tasks_s (toggle_begin x st))"
    using flip by (auto simp: toggle_begin_def set_done_def Let_def)
  have reverted: "tasks_s (handleToggleDone x False st) = tasks_s st"
    using same
    by (simp add: handleToggleDone_def toggle_settle_def toggle_begin_def Let_def
        set_done_twice set_done_same)
  show ?thesis
    using inn out reverted
    by (simp add: handleToggleDone_def toggle_settle_def toggle_begin_def Let_def)
qed

theorem toggle_optimistic_rollback_witness:
  "sample_task \<in> set (tasks_s sample_state) \<and>
   distinct (map id_t (tasks_s sample_state)) \<and>
   sample_task\<lparr>done_t := True\<rparr> \<in> set (tasks_s (toggle_begin sample_task sample_state)) \<and>
   tasks_s (handleToggleDone sample_task False sample_state) = tasks_s sample_state \<and>
   alerts_s (handleToggleDone sample_task False sample_state) =
     [''Status konnte nicht aktualisiert werden.'']"
proof -
  have m: "sample_task \<in> set (tasks_s sample_state)"
    by (simp add: sample_state_def)
  have d: "distinct (map id_t (tasks_s sample_state))"
    by (simp add: sample_state_def sample_task_def)
  have nd: "\<not> done_t sample_task" by (simp add: sample_task_def)
  have al: "alerts_s sample_state = []" by (simp add: sample_state_def)
  show ?thesis
    using toggle_optimistic_rollback[OF m d] m d nd al by simp
qed

text \<open>
  Claim C6. Without the user's confirmation \<open>handleDelete\<close> changes nothing and
  sends nothing. With it, the one request sent is the DELETE of the task; when the
  request succeeds the tasks with that identifier leave the list and no message is
  shown, and when it fails the list is unchanged and the failure message is shown.
\<close>

theorem handleDelete_protocol:
  "handleDelete x False ok st = st \<and>
   requests_s (handleDelete x True ok st) = requests_s st @ [DELETE_task (id_t x)] \<and>
   tasks_s (handleDelete x True True st) = filter (\<lambda>t. id_t t \<noteq> id_t x) (tasks_s st) \<and>
   x \<notin> set (tasks_s (handleDelete x True True st)) \<and>
   alerts_s (handleDelete x True True st) = alerts_s st \<and>
   tasks_s (handleDelete x True False st) = tasks_s st \<and>
   alerts_s (handleDelete x True False st) = alerts_s st @ [delete_failed_msg]"
  by (simp add: handleDelete_def Let_def)

lemma list_all2_set_done:
  "list_all2 (\<lambda>t' t. t' = (if id_t t = i then t\<lparr>done_t := v\<rparr> else t)) (set_done i v ts) ts"
  by (simp add: set_done_def list_all2_map1 list_all2_same)

text \<open>
  Claim C10. The request of a toggle is a PATCH of the task's identifier whose payload
  holds the key done and no other key. The optimistic update and the rollback map the
  list position by position: a task with the identifier of X gets the new (or the
  old) done value and keeps its other fields, any other task is unchanged. The
  rollback sends no request.
\<close>

theorem toggle_frame:
  "requests_s (toggle_begin x st) =
     requests_s st @
       [PATCH_task (id_t x)
          \<lparr>title_u = Absent, priority_u = Absent, due_date_u = Absent, notes_u = Absent,
           tags_u = Absent, done_u = Value (\<not> done_t x)\<rparr>] \<and>
   list_all2 (\<lambda>t' t. t' = (if id_t t = id_t x then t\<lparr>done_t := \<not> done_t x\<rparr> else t))
     (tasks_s (toggle_begin x st)) (tasks_s st) \<and>
   list_all2 (\<lambda>t' t. t' = (if id_t t = id_t x then t\<lparr>done_t := done_t x\<rparr> else t))
     (tasks_s (toggle_settle x False st)) (tasks_s st) \<and>
   requests_s (toggle_settle x ok st) = requests_s st"
  by (simp add: toggle_begin_def toggle_settle_def Let_def updateTask_payload_def done_update_def
      copy_key_def empty_to_null_def list_all2_set_done)

section \<open>Form mapping and payloads\<close>

lemma split_comma_no_comma: "CHR '','' \<notin> set s \<Longrightarrow> split_comma s = [s]"
  by (induction s) auto

lemma split_comma_append:
  "CHR '','' \<notin> set a \<Longrightarrow> split_comma (a @ CHR '','' # r) = a # split_comma r"
  by (induction a) auto

lemma split_join:
  "\<forall>t \<in> set (t # ts). CHR '','' \<notin> set t \<Longrightarrow>
   split_comma (join_comma_space (t # ts)) = t # map (\<lambda>s. CHR '' '' # s) ts"
proof (induction ts arbitrary: t)
  case Nil
  then show ?case by (simp add: split_comma_no_comma)
next
  case (Cons u us)
  then have "split_comma (join_comma_space (u # us)) = u # map (\<lambda>s. CHR '' '' # s) us"
    by simp
  with Cons.prems show ?case
    by (simp add: split_comma_append)
qed

lemma trim_space: "trim (CHR '' '' # s) = trim s"
proof -
  have ws: "is_ws (CHR '' '')" by (simp add: is_ws_def)
  show ?thesis
  proof (cases "dropWhile is_ws s = []")
    case True
    then have "\<forall>x \<in> set s. is_ws x" by (simp add: dropWhile_eq_Nil_conv)
    with ws show ?thesis by (simp add: trim_def dropWhile_append)
  next
    case False
    with ws show ?thesis by (simp add: trim_def)
  qed
qed

lemma tagsArray_join:
  assumes "\<forall>t \<in> set ts. t \<noteq> [] \<and> trim t = t \<and> CHR '','' \<notin> set t"
  shows "tagsArray (join_comma_space ts) = ts"
proof (cases ts)
  case Nil
  then show ?thesis by (simp add: tagsArray_def trim_def)
next
  case (Cons t us)
  with assms have sp: "split_comma (join_comma_space ts) = t # map (\<lambda>s. CHR '' '' # s) us"
    using split_join[of t us] by simp
  have m: "map trim (map (\<lambda>s. CHR '' '' # s) us) = us"
    using assms Cons by (simp add: trim_space map_idI)
  have f: "filter (\<lambda>t. length t > 0) ts = ts"
    using assms by (simp add: filter_id_conv)
  have "map trim (t # map (\<lambda>s. CHR '' '' # s) us) = ts"
    using assms Cons m by simp
  then show ?thesis
    unfolding tagsArray_def sp using f by simp
qed

text \<open>
  Claim C7, as stated, fails: the empty string is a trimmed, comma-free tag, and the
  tags a and "" load into the form as "a, " and come back as the single tag a.
\<close>

theorem empty_tag_not_restored:
  "list_all (\<lambda>t. trim t = t \<and> CHR '','' \<notin> set t) (tags_t (sample_task\<lparr>tags_t := [''a'', []]\<rparr>)) \<and>
   tags_f (initial_formData (sample_task\<lparr>tags_t := [''a'', []]\<rparr>)) = ''a, '' \<and>
   tags_c (createTask_payload (initial_formData (sample_task\<lparr>tags_t := [''a'', []]\<rparr>))) = [''a''] \<and>
   tags_c (createTask_payload (initial_formData (sample_task\<lparr>tags_t := [''a'', []]\<rparr>))) \<noteq>
     tags_t (sample_task\<lparr>tags_t := [''a'', []]\<rparr>)"
  by (simp add: initial_formData_def createTask_payload_def tagsArray_def trim_def is_ws_def)

text \<open>
  Claim C7, amended. For every task whose tags are non-empty, trimmed, comma-free
  strings, the form holds the tags joined by a comma and a space in their order, and
  the payload of a create and of an update built from that form holds the original
  list of tags.
\<close>

theorem tags_roundtrip:
  assumes "\<forall>t \<in> set (tags_t x). t \<noteq> [] \<and> trim t = t \<and> CHR '','' \<notin> set t"
  shows "tags_f (initial_formData x) = join_comma_space (tags_t x) \<and>
         tags_c (createTask_payload (initial_formData x)) = tags_t x \<and>
         tags_u (updateTask_payload (form_update (initial_formData x))) = Value (tags_t x)"
  using tagsArray_join[OF assms]
  by (simp add: initial_formData_def createTask_payload_def updateTask_payload_def form_update_def)

theorem tags_roundtrip_witness:
  "list_all (\<lambda>t. t \<noteq> [] \<and> trim t = t \<and> CHR '','' \<notin> set t) (tags_t sample_task) \<and>
   tags_f (initial_formData sample_task) = ''a, b'' \<and>
   tags_c (createTask_payload (initial_formData sample_task)) = [''a'', ''b''] \<and>
   tags_u (updateTask_payload (form_update (initial_formData sample_task))) = Value [''a'', ''b'']"
proof -
  have t: "tags_t sample_task = [''a'', ''b'']" by (simp add: sample_task_def)
  have h: "\<forall>t \<in> set (tags_t sample_task). t \<noteq> [] \<and> trim t = t \<and> CHR '','' \<notin> set t"
    by (simp add: t trim_def is_ws_def)
  show ?thesis
    using tags_roundtrip[OF h] h by (simp add: t)
qed

text \<open>
  Claim C8. When the due date and the notes of the submitted form are empty strings,
  the payload of a create and the payload of an update hold null for both, not the
  empty string.
\<close>

theorem empty_optional_fields_become_null:
  assumes "due_date_f d = []" and "notes_f d = []"
  shows "due_date_c (createTask_payload d) = None \<and> notes_c (createTask_payload d) = None \<and>
         due_date_u (updateTask_payload (form_update d)) = Null \<and>
         notes_u (updateTask_payload (form_update d)) = Null"
  using assms
  by (simp add: createTask_payload_def updateTask_payload_def form_update_def or_null_def
      empty_to_null_def)

theorem empty_optional_fields_become_null_witness:
  "due_date_f sample_form = [] \<and> notes_f sample_form = [] \<and>
   due_date_c (createTask_payload sample_form) = None \<and>
   notes_c (createTask_payload sample_form) = None \<and>
   due_date_u (updateTask_payload (form_update sample_form)) = Null \<and>
   notes_u (updateTask_payload (form_update sample_form)) = Null"
proof -
  have h: "due_date_f sample_form = []" "notes_f sample_form = []"
    by (simp_all add: sample_form_def)
  show ?thesis
    using empty_optional_fields_become_null[OF h] h by simp
qed

end
